theory Spec2Isabelle
  imports Main "HOL-Library.Sublist"
begin

section \<open>Strings as ck2.py uses them\<close>

text \<open>
  A Python \<open>str\<close> is modelled as a \<open>string\<close> whose characters are the code points
  below 256 (Latin-1), so \<open>CHR 0xA0\<close> is the no-break space U+00A0 that the scraper
  replaces by a blank.
\<close>

definition nbsp :: char where
  "nbsp = CHR 0xA0"

definition is_space :: "char \<Rightarrow> bool" where
  \<comment> \<open>\<open>str.isspace\<close>, which is also what \<open>str.strip()\<close> removes\<close>
  "is_space c = (let n = (of_char c :: nat) in
     (9 \<le> n \<and> n \<le> 13) \<or> (28 \<le> n \<and> n \<le> 32) \<or> n = 133 \<or> n = 160)"

definition is_digit :: "char \<Rightarrow> bool" where
  \<comment> \<open>\<open>str.isdigit\<close> on code points below 256: the digits and the superscripts 1, 2, 3\<close>
  "is_digit c = (let n = (of_char c :: nat) in (48 \<le> n \<and> n \<le> 57) \<or> n = 178 \<or> n = 179 \<or> n = 185)"

definition is_decimal :: "char \<Rightarrow> bool" where
  \<comment> \<open>one of the characters \<open>0\<close> to \<open>9\<close>, which \<open>int\<close> and \<open>float\<close> read\<close>
  "is_decimal c = (let n = (of_char c :: nat) in 48 \<le> n \<and> n \<le> 57)"

definition is_alpha :: "char \<Rightarrow> bool" where
  \<comment> \<open>\<open>str.isalpha\<close> on code points below 256\<close>
  "is_alpha c = (let n = (of_char c :: nat) in
     (65 \<le> n \<and> n \<le> 90) \<or> (97 \<le> n \<and> n \<le> 122) \<or> n = 170 \<or> n = 181 \<or> n = 186 \<or>
     (192 \<le> n \<and> n \<noteq> 215 \<and> n \<noteq> 247))"

definition lower_char :: "char \<Rightarrow> char" where
  \<comment> \<open>\<open>str.lower\<close> on one code point below 256\<close>
  "lower_char c = (let n = (of_char c :: nat) in
     if (65 \<le> n \<and> n \<le> 90) \<or> (192 \<le> n \<and> n \<le> 222 \<and> n \<noteq> 215)
     then char_of (n + 32) else c)"

definition lower :: "string \<Rightarrow> string" where
  "lower s = map lower_char s"

definition replace_char :: "char \<Rightarrow> string \<Rightarrow> string \<Rightarrow> string" where
  \<comment> \<open>\<open>s.replace(c, r)\<close> for a one-character \<open>c\<close>\<close>
  "replace_char c r s = concat (map (\<lambda>x. if x = c then r else [x]) s)"

definition lstrip :: "string \<Rightarrow> string" where
  "lstrip s = dropWhile is_space s"

definition rstrip :: "string \<Rightarrow> string" where
  "rstrip s = rev (dropWhile is_space (rev s))"

definition strip :: "string \<Rightarrow> string" where
  "strip s = rstrip (lstrip s)"

definition split_once :: "char \<Rightarrow> string \<Rightarrow> string \<times> string option" where
  \<comment> \<open>\<open>s.split(c, 1)\<close>: the part before the first \<open>c\<close>, and the part after it when
      there is a \<open>c\<close> (the Python list then has two elements)\<close>
  "split_once c s = (takeWhile (\<lambda>x. x \<noteq> c) s,
     case dropWhile (\<lambda>x. x \<noteq> c) s of [] \<Rightarrow> None | _ # r \<Rightarrow> Some r)"

definition last_field :: "char \<Rightarrow> string \<Rightarrow> string" where
  \<comment> \<open>\<open>s.split(c)[-1]\<close>: what follows the last \<open>c\<close>, all of \<open>s\<close> without one\<close>
  "last_field c s = rev (takeWhile (\<lambda>x. x \<noteq> c) (rev s))"

definition count_char :: "char \<Rightarrow> string \<Rightarrow> nat" where
  "count_char c s = length (filter (\<lambda>x. x = c) s)"

definition partition :: "char \<Rightarrow> string \<Rightarrow> string \<times> string" where
  \<comment> \<open>\<open>s.partition(c)\<close> without its middle component; no \<open>c\<close> gives \<open>(s, '')\<close>\<close>
  "partition c s = (takeWhile (\<lambda>x. x \<noteq> c) s, drop 1 (dropWhile (\<lambda>x. x \<noteq> c) s))"

section \<open>Dates and times\<close>

record date =
  year :: nat
  month :: nat
  day :: nat

record time_of_day =
  hour :: nat
  minute :: nat
  second :: nat
  microsecond :: nat

record datetime =
  dt_date :: date
  dt_time :: time_of_day

definition is_leap :: "nat \<Rightarrow> bool" where
  "is_leap y = (y mod 4 = 0 \<and> (y mod 100 \<noteq> 0 \<or> y mod 400 = 0))"

definition days_in_month :: "nat \<Rightarrow> nat \<Rightarrow> nat" where
  "days_in_month y m =
     (if m = 2 then (if is_leap y then 29 else 28)
      else if m = 4 \<or> m = 6 \<or> m = 9 \<or> m = 11 then 30 else 31)"

definition valid_date :: "date \<Rightarrow> bool" where
  \<comment> \<open>the check \<open>datetime.date\<close> makes on construction\<close>
  "valid_date d = (1 \<le> year d \<and> year d \<le> 9999 \<and> 1 \<le> month d \<and> month d \<le> 12 \<and>
     1 \<le> day d \<and> day d \<le> days_in_month (year d) (month d))"

definition valid_time :: "time_of_day \<Rightarrow> bool" where
  "valid_time t = (hour t < 24 \<and> minute t < 60 \<and> second t < 60 \<and> microsecond t < 1000000)"

definition replace_year :: "date \<Rightarrow> nat \<Rightarrow> date option" where
  \<comment> \<open>\<open>d.replace(year=y)\<close>; ValueError (29 February in a common year) is \<open>None\<close>\<close>
  "replace_year d y = (let d' = d\<lparr>year := y\<rparr> in if valid_date d' then Some d' else None)"

definition combine :: "date \<Rightarrow> time_of_day \<Rightarrow> datetime" where
  "combine d t = \<lparr>dt_date = d, dt_time = t\<rparr>"

section \<open>Rows of the calendar table\<close>

text \<open>
  BeautifulSoup is outside the repository; a row is modelled by what the scraper reads
  from it: its \<open>td\<close> cells, and for each cell the stripped text of its first
  \<open>strong\<close> element, of its first \<open>a\<close> element (when there is one) and of the cell.
\<close>

record cell =
  cell_strong :: "string option"
  cell_link :: "string option"
  cell_text :: string

type_synonym row = "cell list"

record event =
  title :: string
  start_dt :: datetime
  end_dt :: "datetime option"
  mode :: string
  note_txt :: string

record tracked =
  current_start_date :: "date option"
  current_end_date :: "date option"

section \<open>scrape_all_contests\<close>

text \<open>
  \<open>dateutil.parser.parse\<close> is an import of ck2.py, not code of the repository. The
  scraper takes it as two parameters: \<open>parse_date s\<close> is
  \<open>parser.parse(s, dayfirst=True).date()\<close> and \<open>parse_time s\<close> is
  \<open>parser.parse(s).time()\<close>, with \<open>None\<close> for any exception.
\<close>

definition date_part1 :: "string \<Rightarrow> string" where
  \<comment> \<open>lines 62-69: the fragment of the first segment that is parsed\<close>
  "date_part1 txt =
     (let parts = split_once CHR ''-'' txt;
          first = strip (fst parts);
          parts1 = split_once CHR ''.'' first;
          dp = (case snd parts1 of Some r \<Rightarrow> r | None \<Rightarrow> fst parts1)
      in case snd parts of
           Some p1 \<Rightarrow>
             if count_char CHR ''.'' dp < 2 then dp @ ''.'' @ last_field CHR ''.'' (strip p1)
             else dp
         | None \<Rightarrow> dp)"

definition date_part2 :: "string \<Rightarrow> string" where
  \<comment> \<open>lines 77-82, for the text \<open>parts[1]\<close> after the first dash\<close>
  "date_part2 p1 =
     (let second = strip p1;
          parts2 = split_once CHR ''.'' second;
          dp = (case snd parts2 of Some r \<Rightarrow> r | None \<Rightarrow> fst parts2)
      in if count_char CHR ''.'' dp < 2 then dp @ ''.'' @ last_field CHR ''.'' (strip p1)
         else dp)"

definition parse_header_date :: "(string \<Rightarrow> date option) \<Rightarrow> nat \<Rightarrow> string \<Rightarrow> date option" where
  \<comment> \<open>the body of each \<open>try\<close>: parse, then force the year\<close>
  "parse_header_date parse_date current_year s =
     (case parse_date s of None \<Rightarrow> None | Some d \<Rightarrow> replace_year d current_year)"

definition header_row :: "(string \<Rightarrow> date option) \<Rightarrow> nat \<Rightarrow> string \<Rightarrow> tracked" where
  \<comment> \<open>lines 61-89, for the stripped text of the \<open>strong\<close> element\<close>
  "header_row parse_date current_year strong_text =
     (let txt = replace_char nbsp '' '' strong_text;
          parts = split_once CHR ''-'' txt;
          start = parse_header_date parse_date current_year (date_part1 txt);
          end = (case snd parts of
                   Some p1 \<Rightarrow>
                     (case parse_header_date parse_date current_year (date_part2 p1) of
                        Some d2 \<Rightarrow> Some d2
                      | None \<Rightarrow> start)
                 | None \<Rightarrow> start)
      in \<lparr>current_start_date = start, current_end_date = end\<rparr>)"

definition time_txt :: "row \<Rightarrow> string" where
  \<comment> \<open>line 94\<close>
  "time_txt tds = (if length tds > 1 then replace_char nbsp '' '' (cell_text (tds ! 1)) else [])"

definition start_str :: "row \<Rightarrow> string" where
  \<comment> \<open>line 95, first component\<close>
  "start_str tds = strip (fst (partition CHR ''-'' (time_txt tds)))"

definition end_str :: "row \<Rightarrow> string" where
  \<comment> \<open>line 95, last component\<close>
  "end_str tds = strip (snd (partition CHR ''-'' (time_txt tds)))"

definition row_mode :: "row \<Rightarrow> string" where
  \<comment> \<open>line 96\<close>
  "row_mode tds = (if length tds > 2 then cell_text (tds ! 2) else [])"

definition row_note :: "row \<Rightarrow> string" where
  \<comment> \<open>line 97\<close>
  "row_note tds = (if length tds > 3 then cell_text (tds ! 3) else [])"

definition contest_row ::
  "(string \<Rightarrow> time_of_day option) \<Rightarrow> tracked \<Rightarrow> date \<Rightarrow> string \<Rightarrow> row \<Rightarrow> event option" where
  \<comment> \<open>lines 93-117, for a row with link text \<open>ttl\<close> under the tracked start date \<open>sd\<close>;
      an exception in the \<open>try\<close> leaves what was assigned before it\<close>
  "contest_row parse_time st sd ttl tds =
     (let t1 = (if start_str tds \<noteq> [] then parse_time (start_str tds) else None);
          start = (if start_str tds \<noteq> [] then map_option (combine sd) t1 else None);
          end = (if (start_str tds \<noteq> [] \<and> t1 = None) \<or> end_str tds = [] then None
                 else map_option
                        (combine (case current_end_date st of Some ed \<Rightarrow> ed | None \<Rightarrow> sd))
                        (parse_time (end_str tds)))
      in case start of
           None \<Rightarrow> None
         | Some s \<Rightarrow>
             Some \<lparr>title = ttl, start_dt = s, end_dt = end, mode = row_mode tds,
                   note_txt = row_note tds\<rparr>)"

definition is_header :: "row \<Rightarrow> bool" where
  \<comment> \<open>lines 56-60: the row has cells and its first cell holds a \<open>strong\<close> element\<close>
  "is_header tds = (case tds of [] \<Rightarrow> False | td0 # _ \<Rightarrow> cell_strong td0 \<noteq> None)"

definition scrape_row ::
  "(string \<Rightarrow> date option) \<Rightarrow> (string \<Rightarrow> time_of_day option) \<Rightarrow> nat \<Rightarrow>
   tracked \<times> event list \<Rightarrow> row \<Rightarrow> tracked \<times> event list" where
  \<comment> \<open>one pass through the body of the \<open>for\<close> loop, lines 56-117\<close>
  "scrape_row parse_date parse_time current_year s tds =
     (case s of (st, events) \<Rightarrow>
        (case tds of
           [] \<Rightarrow> (st, events)
         | td0 # _ \<Rightarrow>
             (case cell_strong td0 of
                Some strong_text \<Rightarrow> (header_row parse_date current_year strong_text, events)
              | None \<Rightarrow>
                  (case (cell_link td0, current_start_date st) of
                     (Some ttl, Some sd) \<Rightarrow>
                       (case contest_row parse_time st sd ttl tds of
                          Some e \<Rightarrow> (st, events @ [e])
                        | None \<Rightarrow> (st, events))
                   | _ \<Rightarrow> (st, events)))))"

fun scrape_loop ::
  "(string \<Rightarrow> date option) \<Rightarrow> (string \<Rightarrow> time_of_day option) \<Rightarrow> nat \<Rightarrow>
   tracked \<times> event list \<Rightarrow> row list \<Rightarrow> tracked \<times> event list" where
  "scrape_loop pd pt cy s [] = s"
| "scrape_loop pd pt cy s (r # rows) = scrape_loop pd pt cy (scrape_row pd pt cy s r) rows"

definition scrape_all_contests ::
  "(string \<Rightarrow> date option) \<Rightarrow> (string \<Rightarrow> time_of_day option) \<Rightarrow> nat \<Rightarrow> row list \<Rightarrow> event list" where
  "scrape_all_contests pd pt cy rows =
     snd (scrape_loop pd pt cy (\<lparr>current_start_date = None, current_end_date = None\<rparr>, []) rows)"

section \<open>The date parser of python-dateutil on numeric fragments\<close>

text \<open>
  The examples need the value of \<open>dateutil.parser.parse\<close> at concrete strings. The
  definitions below follow the library (version 2.9, \<open>parser/_parser.py\<close>): the
  tokenizer \<open>_timelex\<close> in full, and of \<open>parser._parse\<close> the branches that tokens
  of digits (a length other than 6, 8, 12 or 14), \<open>.\<close>, blank, \<open>:\<close> and \<open>Z\<close> can
  reach. A string with any other token is outside the model, which answers \<open>None\<close>
  there without saying anything about the library. \<open>None\<close> on a string inside the model
  is the library's ParserError. The default date-time \<open>dflt\<close> is today at midnight.
\<close>

datatype lex_state = S_init | S_word | S_num | S_word_dot | S_num_dot

fun split_decimal :: "string \<Rightarrow> string \<Rightarrow> string list" where
  \<comment> \<open>\<open>re.split("([.,])", token)\<close>, with \<open>cur\<close> the piece being read\<close>
  "split_decimal cur [] = [cur]"
| "split_decimal cur (c # cs) =
     (if c = CHR ''.'' \<or> c = CHR '','' then cur # [c] # split_decimal [] cs
      else split_decimal (cur @ [c]) cs)"

definition finish_token :: "lex_state \<Rightarrow> bool \<Rightarrow> string \<Rightarrow> string list" where
  \<comment> \<open>the end of \<open>get_token\<close>: a dotted token is broken up, its pieces queued\<close>
  "finish_token st seenletters token =
     (if (st = S_word_dot \<or> st = S_num_dot) \<and>
         (seenletters \<or> count_char CHR ''.'' token > 1 \<or> last token = CHR ''.'' \<or> last token = CHR '','')
      then (case split_decimal [] token of l0 # l \<Rightarrow> l0 # filter (\<lambda>t. t \<noteq> []) l | [] \<Rightarrow> [])
      else if st = S_num_dot \<and> count_char CHR ''.'' token = 0
      then [map (\<lambda>c. if c = CHR '','' then CHR ''.'' else c) token]
      else [token])"

fun timelex :: "lex_state \<Rightarrow> bool \<Rightarrow> string \<Rightarrow> string \<Rightarrow> string list" where
  "timelex st seenletters token [] = (if st = S_init then [] else finish_token st seenletters token)"
| "timelex st seenletters token (c # cs) =
     (let fresh =
            (if is_alpha c then timelex S_word False [c] cs
             else if is_digit c then timelex S_num False [c] cs
             else if is_space c then '' '' # timelex S_init False [] cs
             else [c] # timelex S_init False [] cs)
      in if c = CHR 0x00 then timelex st seenletters token cs
         else (case st of
             S_init \<Rightarrow> fresh
           | S_word \<Rightarrow>
               if is_alpha c then timelex S_word True (token @ [c]) cs
               else if c = CHR ''.'' then timelex S_word_dot True (token @ [c]) cs
               else finish_token S_word True token @ fresh
           | S_num \<Rightarrow>
               if is_digit c then timelex S_num seenletters (token @ [c]) cs
               else if c = CHR ''.'' \<or> (c = CHR '','' \<and> length token \<ge> 2)
               then timelex S_num_dot seenletters (token @ [c]) cs
               else finish_token S_num seenletters token @ fresh
           | S_word_dot \<Rightarrow>
               if c = CHR ''.'' \<or> is_alpha c then timelex S_word_dot True (token @ [c]) cs
               else if is_digit c \<and> last token = CHR ''.''
               then timelex S_num_dot True (token @ [c]) cs
               else finish_token S_word_dot True token @ fresh
           | S_num_dot \<Rightarrow>
               if c = CHR ''.'' \<or> is_digit c then timelex S_num_dot seenletters (token @ [c]) cs
               else if is_alpha c \<and> last token = CHR ''.''
               then timelex S_word_dot seenletters (token @ [c]) cs
               else finish_token S_num_dot seenletters token @ fresh))"

definition all_digits :: "string \<Rightarrow> bool" where
  "all_digits t = (t \<noteq> [] \<and> list_all is_decimal t)"

definition int_of :: "string \<Rightarrow> nat" where
  \<comment> \<open>\<open>int(t)\<close> for a token of digits\<close>
  "int_of t = foldl (\<lambda>n c. 10 * n + (of_char c - 48)) 0 t"

definition in_scope :: "string \<Rightarrow> bool" where
  "in_scope t = (t = ''.'' \<or> t = '' '' \<or> t = '':'' \<or> t = ''Z'' \<or>
     (all_digits t \<and> length t \<notin> {6, 8, 12, 14}))"

definition jump :: "string \<Rightarrow> bool" where
  \<comment> \<open>\<open>parserinfo.jump\<close> on the tokens of the model\<close>
  "jump t = (t = '' '' \<or> t = ''.'')"

record pstate =
  ymd :: "nat list"
  ystridx :: "nat option"
  century_specified :: bool
  p_hour :: "nat option"
  p_minute :: "nat option"
  p_second :: "nat option"
  p_microsecond :: "nat option"
  p_tzname :: bool

definition ymd_append :: "bool \<Rightarrow> nat \<Rightarrow> pstate \<Rightarrow> pstate option" where
  \<comment> \<open>\<open>_ymd.append\<close>; \<open>is_year\<close> says the value gets the label Y, and a second year is
      a ValueError\<close>
  "ymd_append is_year v s =
     (if is_year then
        (if ystridx s \<noteq> None then None
         else Some (s\<lparr>ymd := ymd s @ [v], ystridx := Some (length (ymd s)),
                      century_specified := True\<rparr>))
      else Some (s\<lparr>ymd := ymd s @ [v]\<rparr>))"

definition append_str :: "string \<Rightarrow> pstate \<Rightarrow> pstate option" where
  \<comment> \<open>\<open>ymd.append(token)\<close>: a string of more than two digits is a year; \<open>int\<close> of
      anything but digits raises\<close>
  "append_str t s = (if all_digits t then ymd_append (length t > 2) (int_of t) s else None)"

definition append_num :: "string \<Rightarrow> pstate \<Rightarrow> pstate option" where
  \<comment> \<open>\<open>ymd.append(value)\<close> for the Decimal value of the token: above 100 it is a year\<close>
  "append_num t s = ymd_append (int_of t > 100) (int_of t) s"

fun parse_tokens :: "pstate \<Rightarrow> string list \<Rightarrow> pstate option" where
  "parse_tokens s [] = Some s"
| "parse_tokens s (t # ts) =
     (if all_digits t then
        (if length (ymd s) = 3 \<and> (length t = 2 \<or> length t = 4) \<and> p_hour s = None \<and>
            (ts = [] \<or> hd ts \<noteq> '':'')
         then parse_tokens
                (s\<lparr>p_hour := Some (int_of (take 2 t)),
                   p_minute := (if length t = 4 then Some (int_of (drop 2 t)) else p_minute s)\<rparr>) ts
         else if length ts \<ge> 2 \<and> hd ts = '':'' then
           (if \<not> all_digits (ts ! 1) then None
            else let s1 = s\<lparr>p_hour := Some (int_of t), p_minute := Some (int_of (ts ! 1)),
                             p_second := None\<rparr>
                 in if length ts \<ge> 4 \<and> ts ! 2 = '':'' then
                      (if \<not> all_digits (ts ! 3) then None
                       else parse_tokens
                              (s1\<lparr>p_second := Some (int_of (ts ! 3)), p_microsecond := Some 0\<rparr>)
                              (drop 4 ts))
                    else parse_tokens s1 (drop 2 ts))
         else if ts \<noteq> [] \<and> hd ts = ''.'' then
           (case append_str t s of
              None \<Rightarrow> None
            | Some s1 \<Rightarrow>
                if length ts \<ge> 2 \<and> \<not> jump (ts ! 1) then
                  (case append_str (ts ! 1) s1 of
                     None \<Rightarrow> None
                   | Some s2 \<Rightarrow>
                       if length ts \<ge> 3 \<and> ts ! 2 = ''.'' then
                         (if length ts < 4 then None
                          else case append_str (ts ! 3) s2 of
                                 None \<Rightarrow> None
                               | Some s3 \<Rightarrow> parse_tokens s3 (drop 4 ts))
                       else parse_tokens s2 (drop 2 ts))
                else parse_tokens s1 (drop 1 ts))
         else if ts = [] \<or> jump (hd ts) then
           (case append_num t s of None \<Rightarrow> None | Some s1 \<Rightarrow> parse_tokens s1 (drop 1 ts))
         else if 1 \<le> int_of t \<and> int_of t \<le> 31 then
           (case append_num t s of None \<Rightarrow> None | Some s1 \<Rightarrow> parse_tokens s1 ts)
         else None)
      else if t = ''Z'' \<and> p_hour s \<noteq> None \<and> \<not> p_tzname s then parse_tokens (s\<lparr>p_tzname := True\<rparr>) ts
      else if jump t then parse_tokens s ts
      else None)"

definition resolve_ymd :: "bool \<Rightarrow> pstate \<Rightarrow> (nat option \<times> nat option \<times> nat option) option" where
  \<comment> \<open>\<open>_ymd.resolve_ymd\<close> with \<open>yearfirst = False\<close> and no month name: (year, month, day)\<close>
  "resolve_ymd dayfirst s =
     (case ymd s of
        [] \<Rightarrow> Some (None, None, None)
      | [a] \<Rightarrow> if ystridx s \<noteq> None \<or> a > 31 then Some (Some a, None, None)
               else Some (None, None, Some a)
      | [a, b] \<Rightarrow>
          if a > 31 then Some (Some a, Some b, None)
          else if b > 31 then Some (Some b, Some a, None)
          else if dayfirst \<and> b \<le> 12 then Some (None, Some b, Some a)
          else Some (None, Some a, Some b)
      | [a, b, c] \<Rightarrow>
          if a > 31 \<or> ystridx s = Some 0 then
            (if dayfirst \<and> c \<le> 12 then Some (Some a, Some c, Some b)
             else Some (Some a, Some b, Some c))
          else if a > 12 \<or> (dayfirst \<and> b \<le> 12) then Some (Some c, Some b, Some a)
          else Some (Some c, Some a, Some b)
      | _ \<Rightarrow> None)"

definition convertyear :: "nat \<Rightarrow> bool \<Rightarrow> nat \<Rightarrow> nat" where
  \<comment> \<open>\<open>parserinfo.convertyear\<close>, with \<open>this_year\<close> the year of the local clock\<close>
  "convertyear this_year century y =
     (if y < 100 \<and> \<not> century then
        (let y1 = y + this_year div 100 * 100
         in if y1 \<ge> this_year + 50 then y1 - 100
            else if y1 + 50 < this_year then y1 + 100
            else y1)
      else y)"

definition dateutil_parse :: "datetime \<Rightarrow> bool \<Rightarrow> string \<Rightarrow> datetime option" where
  \<comment> \<open>\<open>parser.parse(s, dayfirst=...)\<close> with the default \<open>dflt\<close>\<close>
  "dateutil_parse dflt dayfirst s =
     (let l = timelex S_init False [] s;
          s0 = \<lparr>ymd = [], ystridx = None, century_specified = False, p_hour = None,
                p_minute = None, p_second = None, p_microsecond = None, p_tzname = False\<rparr>
      in if \<not> list_all in_scope l then None
         else case parse_tokens s0 l of
           None \<Rightarrow> None
         | Some r \<Rightarrow>
             (case resolve_ymd dayfirst r of
                None \<Rightarrow> None
              | Some (y, m, d) \<Rightarrow>
                  if y = None \<and> m = None \<and> d = None \<and> p_hour r = None \<and> p_minute r = None \<and>
                     p_second r = None \<and> p_microsecond r = None
                  then None
                  else
                    let dd = dt_date dflt; dtm = dt_time dflt;
                        yy = (case y of
                                Some v \<Rightarrow> convertyear (year dd) (century_specified r) v
                              | None \<Rightarrow> year dd);
                        mm = (case m of Some v \<Rightarrow> v | None \<Rightarrow> month dd);
                        dy = (case d of Some v \<Rightarrow> v
                              | None \<Rightarrow> min (day dd) (days_in_month yy mm));
                        dt = \<lparr>year = yy, month = mm, day = dy\<rparr>;
                        tm = \<lparr>hour = (case p_hour r of Some v \<Rightarrow> v | None \<Rightarrow> hour dtm),
                              minute = (case p_minute r of Some v \<Rightarrow> v | None \<Rightarrow> minute dtm),
                              second = (case p_second r of Some v \<Rightarrow> v | None \<Rightarrow> second dtm),
                              microsecond =
                                (case p_microsecond r of Some v \<Rightarrow> v | None \<Rightarrow> microsecond dtm)\<rparr>
                    in if valid_date dt \<and> valid_time tm then Some \<lparr>dt_date = dt, dt_time = tm\<rparr>
                       else None))"

definition midnight :: "date \<Rightarrow> datetime" where
  "midnight d = \<lparr>dt_date = d, dt_time = \<lparr>hour = 0, minute = 0, second = 0, microsecond = 0\<rparr>\<rparr>"

definition dateutil_date :: "date \<Rightarrow> string \<Rightarrow> date option" where
  \<comment> \<open>\<open>parser.parse(s, dayfirst=True).date()\<close> on the day \<open>today\<close>\<close>
  "dateutil_date today s = map_option dt_date (dateutil_parse (midnight today) True s)"

definition dateutil_time :: "date \<Rightarrow> string \<Rightarrow> time_of_day option" where
  \<comment> \<open>\<open>parser.parse(s).time()\<close> on the day \<open>today\<close>\<close>
  "dateutil_time today s = map_option dt_time (dateutil_parse (midnight today) False s)"

section \<open>De-duplication in main\<close>

fun dedupe_loop :: "(string \<times> datetime) set \<Rightarrow> event list \<Rightarrow> event list \<Rightarrow> event list" where
  \<comment> \<open>lines 244-250, with the set \<open>seen\<close> and the list \<open>unique\<close> as they stand\<close>
  "dedupe_loop seen unique [] = unique"
| "dedupe_loop seen unique (e # es) =
     (let key = (title e, start_dt e)
      in if key \<notin> seen then dedupe_loop (insert key seen) (unique @ [e]) es
         else dedupe_loop seen unique es)"

definition dedupe :: "event list \<Rightarrow> event list" where
  "dedupe events = dedupe_loop {} [] events"

section \<open>filter_events\<close>

fun py_in :: "string \<Rightarrow> string \<Rightarrow> bool" where
  \<comment> \<open>\<open>a in b\<close> on strings\<close>
  "py_in a [] = (a = [])"
| "py_in a (c # cs) = (prefix a (c # cs) \<or> py_in a cs)"

definition normalize_mode :: "string \<Rightarrow> string" where
  \<comment> \<open>\<open>m.lower().replace(' ', '')\<close>\<close>
  "normalize_mode m = replace_char CHR '' '' [] (lower m)"

definition mode_match :: "string list \<Rightarrow> string \<Rightarrow> bool" where
  \<comment> \<open>line 136: \<open>any(pat in mval or mval in pat for pat in pats)\<close>\<close>
  "mode_match pats mval = list_ex (\<lambda>pat. py_in pat mval \<or> py_in mval pat) pats"

definition year_skip :: "nat \<Rightarrow> event \<Rightarrow> bool" where
  \<comment> \<open>line 127\<close>
  "year_skip current_year e =
     (year (dt_date (start_dt e)) \<noteq> current_year \<and>
      (case end_dt e of None \<Rightarrow> True | Some ed \<Rightarrow> year (dt_date ed) \<noteq> current_year))"

definition month_skip :: "nat list option \<Rightarrow> event \<Rightarrow> bool" where
  \<comment> \<open>lines 129-133; \<open>if months\<close> and \<open>if em\<close> test for a non-empty list and a non-zero month\<close>
  "month_skip months e =
     (case months of
        None \<Rightarrow> False
      | Some ms \<Rightarrow>
          ms \<noteq> [] \<and> month (dt_date (start_dt e)) \<notin> set ms \<and>
          (case end_dt e of
             None \<Rightarrow> True
           | Some ed \<Rightarrow> if month (dt_date ed) \<noteq> 0 then month (dt_date ed) \<notin> set ms else True))"

definition mode_skip :: "string list option \<Rightarrow> event \<Rightarrow> bool" where
  \<comment> \<open>lines 134-137\<close>
  "mode_skip pats e =
     (case pats of
        None \<Rightarrow> False
      | Some ps \<Rightarrow> ps \<noteq> [] \<and> \<not> mode_match ps (normalize_mode (mode e)))"

fun filter_loop ::
  "nat \<Rightarrow> nat list option \<Rightarrow> string list option \<Rightarrow> event list \<Rightarrow> event list \<Rightarrow> event list" where
  "filter_loop cy months pats out [] = out"
| "filter_loop cy months pats out (e # es) =
     (if year_skip cy e then filter_loop cy months pats out es
      else if month_skip months e then filter_loop cy months pats out es
      else if mode_skip pats e then filter_loop cy months pats out es
      else filter_loop cy months pats (out @ [e]) es)"

definition filter_events ::
  "nat \<Rightarrow> event list \<Rightarrow> nat list option \<Rightarrow> string list option \<Rightarrow> event list" where
  \<comment> \<open>\<open>current_year\<close> is \<open>date.today().year\<close>; line 124 gives \<open>pats\<close>\<close>
  "filter_events current_year events months modes =
     (let pats = (case modes of
                    None \<Rightarrow> None
                  | Some ms \<Rightarrow> if ms \<noteq> [] then Some (map normalize_mode ms) else None)
      in filter_loop current_year months pats [] events)"

section \<open>export_to_ics\<close>

text \<open>
  The icalendar package is outside the repository. The calendar is modelled as what
  \<open>export_to_ics\<close> puts into it: the properties added to the calendar and, for each
  event, the properties added to its component, in the order of the \<open>add\<close> calls and
  under the names the source passes. icalendar writes a property as the content line
  \<open>NAME:value\<close> with the name in upper case. The identifiers that \<open>uuid.uuid4()\<close>
  draws and the clock value \<open>now\<close> are parameters.
\<close>

datatype ical_value = Text string | Stamp datetime

type_synonym component = "(string \<times> ical_value) list"

record calendar =
  cal_props :: "(string \<times> ical_value) list"
  components :: "component list"

definition event_component :: "bool \<Rightarrow> datetime \<Rightarrow> string \<Rightarrow> event \<Rightarrow> component" where
  \<comment> \<open>lines 157-170\<close>
  "event_component purge now uid e =
     [(''uid'', Text (uid @ ''@darc.de'')), (''dtstamp'', Stamp now),
      (''dtstart'', Stamp (start_dt e))] @
     (case end_dt e of Some ed \<Rightarrow> [(''dtend'', Stamp ed)] | None \<Rightarrow> []) @
     [(''summary'', Text (title e)),
      (''description'',
         Text (''Mode: '' @ mode e @
               (if note_txt e \<noteq> [] then [CHR 0x0A] @ ''Notiz: '' @ note_txt e else [])))] @
     (if purge then [(''status'', Text ''CANCELLED'')] else [])"

definition export_to_ics ::
  "event list \<Rightarrow> string option \<Rightarrow> bool \<Rightarrow> datetime \<Rightarrow> (nat \<Rightarrow> string) \<Rightarrow> calendar" where
  \<comment> \<open>lines 148-170: the calendar handed to \<open>to_ical\<close>; \<open>uids i\<close> is the identifier
      drawn for the event at index \<open>i\<close>\<close>
  "export_to_ics events calname purge now uids =
     \<lparr>cal_props =
        [(''prodid'', Text ''-//DARC CT Contest Calendar//darc.de//''), (''version'', Text ''2.0'')] @
        (case calname of
           Some n \<Rightarrow> if n \<noteq> [] then [(''X-WR-CALNAME'', Text n)] else []
         | None \<Rightarrow> []) @
        (if purge then [(''METHOD'', Text ''CANCEL'')] else []),
      components =
        map (\<lambda>(i, e). event_component purge now (uids i) e) (enumerate 0 events)\<rparr>"

definition upper_char :: "char \<Rightarrow> char" where
  \<comment> \<open>upper case of an ASCII letter\<close>
  "upper_char c = (let n = (of_char c :: nat) in if 97 \<le> n \<and> n \<le> 122 then char_of (n - 32) else c)"

definition written :: "(string \<times> ical_value) list \<Rightarrow> (string \<times> ical_value) list" where
  \<comment> \<open>the properties as icalendar keeps and writes them, the names in upper case\<close>
  "written ps = map (\<lambda>p. (map upper_char (fst p), snd p)) ps"

definition dedupe_key :: "event \<Rightarrow> string \<times> datetime" where
  "dedupe_key e = (title e, start_dt e)"

section \<open>format_and_print_events\<close>

definition headers :: "string list" where
  "headers = [''Contest'', ''Startdatum'', ''Startzeit'', ''Enddatum'', ''Endzeit'', ''Mode'', ''Notiz'']"

definition digit_char :: "nat \<Rightarrow> char" where
  "digit_char n = char_of (48 + n mod 10)"

definition pad2 :: "nat \<Rightarrow> string" where
  \<comment> \<open>\<open>%d\<close>, \<open>%m\<close>, \<open>%H\<close>, \<open>%M\<close>: two digits\<close>
  "pad2 n = [digit_char (n div 10), digit_char n]"

definition pad4 :: "nat \<Rightarrow> string" where
  \<comment> \<open>four digits\<close>
  "pad4 n = [digit_char (n div 1000), digit_char (n div 100), digit_char (n div 10), digit_char n]"

definition dmy :: "date \<Rightarrow> string" where
  \<comment> \<open>a date written \<open>DD.MM.YYYY\<close>, as a header text may show it\<close>
  "dmy d = pad2 (day d) @ ''.'' @ pad2 (month d) @ ''.'' @ pad4 (year d)"

definition year_digits :: "nat \<Rightarrow> string" where
  \<comment> \<open>\<open>%Y\<close> as the C library prints it: the year in decimal, not padded\<close>
  "year_digits y =
     (if y < 10 then [digit_char y]
      else if y < 100 then pad2 y
      else if y < 1000 then [digit_char (y div 100), digit_char (y div 10), digit_char y]
      else pad4 y)"

definition fmt_date :: "datetime \<Rightarrow> string" where
  \<comment> \<open>\<open>strftime('%d.%m.%Y')\<close>, for the years 1 to 9999 of a \<open>datetime\<close>\<close>
  "fmt_date dt = pad2 (day (dt_date dt)) @ ''.'' @ pad2 (month (dt_date dt)) @ ''.'' @
     year_digits (year (dt_date dt))"

definition fmt_time :: "datetime \<Rightarrow> string" where
  \<comment> \<open>\<open>strftime('%H:%M')\<close>\<close>
  "fmt_time dt = pad2 (hour (dt_time dt)) @ '':'' @ pad2 (minute (dt_time dt))"

definition event_cells :: "event \<Rightarrow> string list" where
  \<comment> \<open>lines 195-207\<close>
  "event_cells e =
     [title e, fmt_date (start_dt e), fmt_time (start_dt e),
      (case end_dt e of Some ed \<Rightarrow> fmt_date ed | None \<Rightarrow> []),
      (case end_dt e of Some ed \<Rightarrow> fmt_time ed | None \<Rightarrow> []),
      mode e, note_txt e]"

definition ljust :: "nat \<Rightarrow> string \<Rightarrow> string" where
  \<comment> \<open>the format field \<open>{:<w}\<close>\<close>
  "ljust w s = s @ replicate (w - length s) CHR '' ''"

fun join :: "string \<Rightarrow> string list \<Rightarrow> string" where
  "join sep [] = []"
| "join sep [x] = x"
| "join sep (x # y # ys) = x @ sep @ join sep (y # ys)"

definition format_row :: "nat list \<Rightarrow> string list \<Rightarrow> string" where
  \<comment> \<open>\<open>fmt.format(*row)\<close>\<close>
  "format_row widths cols = join ''  '' (map (\<lambda>(w, c). ljust w c) (zip widths cols))"

definition no_entries :: string where
  \<comment> \<open>the text \<open>keine Eintr\<auml>ge\<close>, with U+00E4 as one character\<close>
  "no_entries = ''keine Eintr'' @ [CHR 0xE4] @ ''ge''"

definition format_and_print_events :: "event list \<Rightarrow> string list" where
  \<comment> \<open>the lines printed, one per \<open>print\<close> call\<close>
  "format_and_print_events events =
     (let rows = map event_cells events;
          widths = foldl (\<lambda>ws r. map (\<lambda>(w, col). max w (length col)) (zip ws r))
                     (map length headers) rows
      in [format_row widths headers,
          replicate (sum_list widths + 2 * (length widths - 1)) CHR ''-''] @
         (if rows = [] then [no_entries] else map (format_row widths) rows))"

section \<open>Example values\<close>

definition mk_date :: "nat \<Rightarrow> nat \<Rightarrow> nat \<Rightarrow> date" where
  "mk_date y m d = \<lparr>year = y, month = m, day = d\<rparr>"

definition mk_dt :: "nat \<Rightarrow> nat \<Rightarrow> nat \<Rightarrow> nat \<Rightarrow> nat \<Rightarrow> datetime" where
  "mk_dt y m d h mi =
     \<lparr>dt_date = mk_date y m d, dt_time = \<lparr>hour = h, minute = mi, second = 0, microsecond = 0\<rparr>\<rparr>"

definition mk_event :: "string \<Rightarrow> datetime \<Rightarrow> datetime option \<Rightarrow> string \<Rightarrow> event" where
  "mk_event t s e m = \<lparr>title = t, start_dt = s, end_dt = e, mode = m, note_txt = []\<rparr>"

definition today :: date where
  \<comment> \<open>the day of the run in the examples\<close>
  "today = mk_date 2025 3 15"

definition mk_cell :: "string \<Rightarrow> cell" where
  "mk_cell t = \<lparr>cell_strong = None, cell_link = None, cell_text = t\<rparr>"

definition header :: "string \<Rightarrow> row" where
  \<comment> \<open>a row whose only cell holds \<open>t\<close> in a \<open>strong\<close> element\<close>
  "header t = [\<lparr>cell_strong = Some t, cell_link = None, cell_text = t\<rparr>]"

definition contest :: "string \<Rightarrow> string \<Rightarrow> string \<Rightarrow> row" where
  \<comment> \<open>a row of a link, a time cell and a mode cell\<close>
  "contest ttl tm md =
     [\<lparr>cell_strong = None, cell_link = Some ttl, cell_text = ttl\<rparr>, mk_cell tm, mk_cell md]"

definition dig :: "char \<Rightarrow> bool" where
  \<comment> \<open>one of the characters \<open>0\<close> to \<open>9\<close>\<close>
  "dig c = (\<exists>k<10. c = char_of (48 + k :: nat))"

section \<open>De-duplication keeps first occurrences\<close>

lemma filter_upt_Suc_shift:
  "filter P [0..<Suc n] = (if P 0 then [0] else []) @ map Suc (filter (\<lambda>i. P (Suc i)) [0..<n])"
proof -
  have "[0..<Suc n] = 0 # map Suc [0..<n]"
    by (simp add: upt_conv_Cons map_Suc_upt del: upt_Suc)
  then show ?thesis by (simp add: filter_map comp_def del: upt_Suc)
qed

lemma dedupe_loop_positions:
  "dedupe_loop seen unique es =
     unique @ map (\<lambda>i. es ! i)
       (filter (\<lambda>i. dedupe_key (es ! i) \<notin> seen \<and>
                     (\<forall>j<i. dedupe_key (es ! j) \<noteq> dedupe_key (es ! i)))
          [0..<length es])"
proof (induction es arbitrary: seen unique)
  case Nil
  then show ?case by simp
next
  case (Cons e es)
  have key: "(title e, start_dt e) = dedupe_key e" by (simp add: dedupe_key_def)
  show ?case
  proof (cases "dedupe_key e \<in> seen")
    case True
    then have "\<And>i. (dedupe_key (es ! i) \<notin> seen \<and> dedupe_key e \<noteq> dedupe_key (es ! i) \<and>
                     (\<forall>j<i. dedupe_key (es ! j) \<noteq> dedupe_key (es ! i)))
        = (dedupe_key (es ! i) \<notin> seen \<and> (\<forall>j<i. dedupe_key (es ! j) \<noteq> dedupe_key (es ! i)))"
      by auto
    with True show ?thesis
      using Cons.IH[of seen unique]
      by (simp add: key filter_upt_Suc_shift comp_def All_less_Suc2 del: upt_Suc)
  next
    case False
    have "\<And>i. (dedupe_key (es ! i) \<notin> insert (dedupe_key e) seen \<and>
                 (\<forall>j<i. dedupe_key (es ! j) \<noteq> dedupe_key (es ! i)))
        = (dedupe_key (es ! i) \<notin> seen \<and> dedupe_key e \<noteq> dedupe_key (es ! i) \<and>
           (\<forall>j<i. dedupe_key (es ! j) \<noteq> dedupe_key (es ! i)))"
      by auto
    with False show ?thesis
      using Cons.IH[of "insert (dedupe_key e) seen" "unique @ [e]"]
      by (simp add: key filter_upt_Suc_shift comp_def All_less_Suc2 del: upt_Suc)
  qed
qed

text \<open>
  C5. The events that survive de-duplication are exactly those at the positions \<open>i\<close> of
  the scraped list that no earlier position shares the key \<open>(title, start_dt)\<close> with,
  in increasing position: of each group of events with one key the first stays, the later
  ones go, and the survivors keep their document order.
\<close>

theorem dedupe_first_occurrences:
  "dedupe es = map (\<lambda>i. es ! i)
     (filter (\<lambda>i. \<forall>j<i. dedupe_key (es ! j) \<noteq> dedupe_key (es ! i)) [0..<length es])"
  by (simp add: dedupe_def dedupe_loop_positions)

theorem dedupe_first_occurrences_witness:
  "dedupe [mk_event ''A'' (mk_dt 2025 1 6 15 0) None ''CW'',
           mk_event ''B'' (mk_dt 2025 1 6 15 0) None ''SSB'',
           mk_event ''A'' (mk_dt 2025 1 6 15 0) (Some (mk_dt 2025 1 7 18 0)) ''RTTY'',
           mk_event ''A'' (mk_dt 2025 2 1 12 0) None ''CW'']
   = [mk_event ''A'' (mk_dt 2025 1 6 15 0) None ''CW'',
      mk_event ''B'' (mk_dt 2025 1 6 15 0) None ''SSB'',
      mk_event ''A'' (mk_dt 2025 2 1 12 0) None ''CW'']"
  using dedupe_first_occurrences
    [of "[mk_event ''A'' (mk_dt 2025 1 6 15 0) None ''CW'',
          mk_event ''B'' (mk_dt 2025 1 6 15 0) None ''SSB'',
          mk_event ''A'' (mk_dt 2025 1 6 15 0) (Some (mk_dt 2025 1 7 18 0)) ''RTTY'',
          mk_event ''A'' (mk_dt 2025 2 1 12 0) None ''CW'']"]
  by (simp add: All_less_Suc dedupe_key_def mk_event_def mk_dt_def mk_date_def)

section \<open>The mode filter\<close>


lemma filter_loop_filter:
  "filter_loop cy months pats out es =
     out @ filter (\<lambda>e. \<not> year_skip cy e \<and> \<not> month_skip months e \<and> \<not> mode_skip pats e) es"
  by (induction es arbitrary: out) auto




text \<open>
  C10. An event whose mode is empty after lower-casing and removing blanks is never
  excluded by the mode patterns: it is in the result with any list of patterns exactly
  when it is in the result without a mode filter.
\<close>

theorem empty_mode_passes:
  assumes "normalize_mode (mode e) = []"
  shows "e \<in> set (filter_events cy events months modes) \<longleftrightarrow>
         e \<in> set (filter_events cy events months None)"
  using assms
  by (auto simp: filter_events_def filter_loop_filter mode_skip_def mode_match_def list_ex_iff
        neq_Nil_conv split: option.splits)

theorem empty_mode_passes_witness:
  "normalize_mode (mode (mk_event ''A'' (mk_dt 2025 1 6 15 0) None ''  '')) = [] \<and>
   filter_events 2025 [mk_event ''A'' (mk_dt 2025 1 6 15 0) None ''  ''] None (Some [''cw''])
     = [mk_event ''A'' (mk_dt 2025 1 6 15 0) None ''  '']"
proof -
  have n: "normalize_mode (mode (mk_event ''A'' (mk_dt 2025 1 6 15 0) None ''  '')) = []"
    by code_simp
  have "mk_event ''A'' (mk_dt 2025 1 6 15 0) None ''  ''
          \<in> set (filter_events 2025 [mk_event ''A'' (mk_dt 2025 1 6 15 0) None ''  ''] None (Some [''cw'']))"
    using empty_mode_passes[OF n, of 2025 "[mk_event ''A'' (mk_dt 2025 1 6 15 0) None ''  '']" None "Some [''cw'']"]
    by (simp add: filter_events_def filter_loop_filter year_skip_def month_skip_def mode_skip_def mk_event_def mk_dt_def mk_date_def)
  then have "filter_events 2025 [mk_event ''A'' (mk_dt 2025 1 6 15 0) None ''  ''] None (Some [''cw''])
     = [mk_event ''A'' (mk_dt 2025 1 6 15 0) None ''  '']"
    by (simp add: filter_events_def filter_loop_filter Let_def split: if_splits)
  with n show ?thesis by simp
qed


section \<open>The purge markers of the export\<close>

lemma upper_char_simps:
  "upper_char CHR ''a'' = CHR ''A''" "upper_char CHR ''b'' = CHR ''B''" "upper_char CHR ''c'' = CHR ''C''" "upper_char CHR ''d'' = CHR ''D''" "upper_char CHR ''e'' = CHR ''E''" "upper_char CHR ''f'' = CHR ''F''" "upper_char CHR ''g'' = CHR ''G''" "upper_char CHR ''h'' = CHR ''H''" "upper_char CHR ''i'' = CHR ''I''" "upper_char CHR ''j'' = CHR ''J''" "upper_char CHR ''k'' = CHR ''K''" "upper_char CHR ''l'' = CHR ''L''" "upper_char CHR ''m'' = CHR ''M''" "upper_char CHR ''n'' = CHR ''N''" "upper_char CHR ''o'' = CHR ''O''" "upper_char CHR ''p'' = CHR ''P''" "upper_char CHR ''q'' = CHR ''Q''" "upper_char CHR ''r'' = CHR ''R''" "upper_char CHR ''s'' = CHR ''S''" "upper_char CHR ''t'' = CHR ''T''" "upper_char CHR ''u'' = CHR ''U''" "upper_char CHR ''v'' = CHR ''V''" "upper_char CHR ''w'' = CHR ''W''" "upper_char CHR ''x'' = CHR ''X''" "upper_char CHR ''y'' = CHR ''Y''" "upper_char CHR ''z'' = CHR ''Z''"
  "upper_char CHR ''X'' = CHR ''X''" "upper_char CHR ''W'' = CHR ''W''" "upper_char CHR ''R'' = CHR ''R''" "upper_char CHR ''C'' = CHR ''C''" "upper_char CHR ''A'' = CHR ''A''" "upper_char CHR ''L'' = CHR ''L''" "upper_char CHR ''N'' = CHR ''N''" "upper_char CHR ''M'' = CHR ''M''" "upper_char CHR ''E'' = CHR ''E''" "upper_char CHR ''T'' = CHR ''T''" "upper_char CHR ''H'' = CHR ''H''" "upper_char CHR ''O'' = CHR ''O''" "upper_char CHR ''D'' = CHR ''D''" "upper_char CHR ''-'' = CHR ''-''"
  by code_simp+

lemma written_event_component:
  "written (event_component purge now uid e) =
     [(''UID'', Text (uid @ ''@darc.de'')), (''DTSTAMP'', Stamp now),
      (''DTSTART'', Stamp (start_dt e))] @
     (case end_dt e of Some ed \<Rightarrow> [(''DTEND'', Stamp ed)] | None \<Rightarrow> []) @
     [(''SUMMARY'', Text (title e)),
      (''DESCRIPTION'',
         Text (''Mode: '' @ mode e @
               (if note_txt e \<noteq> [] then [CHR 0x0A] @ ''Notiz: '' @ note_txt e else [])))] @
     (if purge then [(''STATUS'', Text ''CANCELLED'')] else [])"
  by (simp add: written_def event_component_def upper_char_simps split: option.split)

lemma written_cal_props:
  "written (cal_props (export_to_ics events calname purge now uids)) =
     [(''PRODID'', Text ''-//DARC CT Contest Calendar//darc.de//''), (''VERSION'', Text ''2.0'')] @
        (case calname of
           Some n \<Rightarrow> if n \<noteq> [] then [(''X-WR-CALNAME'', Text n)] else []
         | None \<Rightarrow> []) @
        (if purge then [(''METHOD'', Text ''CANCEL'')] else [])"
  unfolding written_def export_to_ics_def
  by (simp add: upper_char_simps split: option.split)

lemma components_export:
  "ev \<in> set (components (export_to_ics events calname purge now uids)) \<Longrightarrow>
     \<exists>uid e. ev = event_component purge now uid e"
  by (auto simp: export_to_ics_def)

text \<open>
  C7. For every event list and every call of \<open>export_to_ics\<close> the calendar has one
  component for each event. With \<open>purge\<close> the calendar carries the property
  \<open>METHOD:CANCEL\<close> and every component carries \<open>STATUS:CANCELLED\<close>; without
  \<open>purge\<close> the calendar has no \<open>METHOD\<close> property and no component has a
  \<open>STATUS\<close> property.
\<close>

theorem purge_markers:
  "length (components (export_to_ics events calname purge now uids)) = length events \<and>
   (purge \<longrightarrow>
      (''METHOD'', Text ''CANCEL'') \<in> set (written (cal_props (export_to_ics events calname purge now uids))) \<and>
      (\<forall>ev \<in> set (components (export_to_ics events calname purge now uids)).
         (''STATUS'', Text ''CANCELLED'') \<in> set (written ev))) \<and>
   (\<not> purge \<longrightarrow>
      ''METHOD'' \<notin> fst ` set (written (cal_props (export_to_ics events calname purge now uids))) \<and>
      (\<forall>ev \<in> set (components (export_to_ics events calname purge now uids)).
         ''STATUS'' \<notin> fst ` set (written ev)))"
proof (intro conjI impI ballI)
  show "length (components (export_to_ics events calname purge now uids)) = length events"
    by (simp add: export_to_ics_def)
next
  assume purge
  then show "(''METHOD'', Text ''CANCEL'') \<in> set (written (cal_props (export_to_ics events calname purge now uids)))"
    by (simp add: written_cal_props)
next
  fix ev assume purge and "ev \<in> set (components (export_to_ics events calname purge now uids))"
  then show "(''STATUS'', Text ''CANCELLED'') \<in> set (written ev)"
    by (auto dest!: components_export simp: written_event_component)
next
  assume "\<not> purge"
  then show "''METHOD'' \<notin> fst ` set (written (cal_props (export_to_ics events calname purge now uids)))"
    by (auto simp: written_cal_props split: option.splits if_splits)
next
  fix ev assume "\<not> purge" and "ev \<in> set (components (export_to_ics events calname purge now uids))"
  then show "''STATUS'' \<notin> fst ` set (written ev)"
    by (auto dest!: components_export simp: written_event_component split: option.splits if_splits)
qed

theorem purge_markers_witness:
  "(''METHOD'', Text ''CANCEL'') \<in> set (written (cal_props (export_to_ics
       [mk_event ''A'' (mk_dt 2025 1 6 15 0) None ''CW''] (Some ''Contests'')
       True (mk_dt 2025 1 1 0 0) (\<lambda>i. ''u'')))) \<and>
   ''METHOD'' \<notin> fst ` set (written (cal_props (export_to_ics
       [mk_event ''A'' (mk_dt 2025 1 6 15 0) None ''CW''] (Some ''Contests'')
       False (mk_dt 2025 1 1 0 0) (\<lambda>i. ''u'')))) \<and>
   length (components (export_to_ics [mk_event ''A'' (mk_dt 2025 1 6 15 0) None ''CW'']
       (Some ''Contests'') True (mk_dt 2025 1 1 0 0) (\<lambda>i. ''u''))) = 1 \<and>
   (''STATUS'', Text ''CANCELLED'') \<in> set (written (hd (components (export_to_ics
       [mk_event ''A'' (mk_dt 2025 1 6 15 0) None ''CW''] (Some ''Contests'')
       True (mk_dt 2025 1 1 0 0) (\<lambda>i. ''u''))))) \<and>
   ''STATUS'' \<notin> fst ` set (written (hd (components (export_to_ics
       [mk_event ''A'' (mk_dt 2025 1 6 15 0) None ''CW''] (Some ''Contests'')
       False (mk_dt 2025 1 1 0 0) (\<lambda>i. ''u'')))))"
  using purge_markers[of "[mk_event ''A'' (mk_dt 2025 1 6 15 0) None ''CW'']" "Some ''Contests''"
          True "mk_dt 2025 1 1 0 0" "\<lambda>i. ''u''"]
        purge_markers[of "[mk_event ''A'' (mk_dt 2025 1 6 15 0) None ''CW'']" "Some ''Contests''"
          False "mk_dt 2025 1 1 0 0" "\<lambda>i. ''u''"]
  by (simp add: export_to_ics_def)

section \<open>The table for an empty list\<close>

theorem placeholder_only_counterexample:
  "format_and_print_events [] \<noteq> [no_entries]"
  by (simp add: format_and_print_events_def Let_def)

text \<open>
  C9, amended. For the empty list the presenter prints the column header line and the
  rule of dashes as for any list, and then the line \<open>keine Eintr\<auml>ge\<close> where the
  event rows would be: three lines, not the placeholder alone.
\<close>

theorem empty_list_prints_header_rule_placeholder:
  "format_and_print_events [] =
     [''Contest  Startdatum  Startzeit  Enddatum  Endzeit  Mode  Notiz'',
      replicate 62 CHR ''-'', no_entries]"
  by (simp add: format_and_print_events_def headers_def format_row_def ljust_def)


section \<open>The tracked dates during the scan\<close>

lemma scrape_row_non_header:
  "\<not> is_header tds \<Longrightarrow> fst (scrape_row pd pt cy (st, evs) tds) = st"
  by (auto simp: scrape_row_def is_header_def split: list.splits option.splits)

text \<open>
  C8. Rows that are not header rows (a contest row with a link, a row without a link, a
  row without cells) leave the tracked start and end date as they were: after any run of
  such rows the tracked state is the one before it.
\<close>

theorem non_header_rows_keep_tracked_dates:
  "list_all (\<lambda>tds. \<not> is_header tds) rows \<Longrightarrow>
     fst (scrape_loop pd pt cy (st, evs) rows) = st"
proof (induction rows arbitrary: evs)
  case Nil
  then show ?case by simp
next
  case (Cons tds rows)
  obtain st' evs' where step: "scrape_row pd pt cy (st, evs) tds = (st', evs')"
    by (cases "scrape_row pd pt cy (st, evs) tds")
  from Cons.prems have "\<not> is_header tds" by simp
  then have "st' = st" using scrape_row_non_header[of tds pd pt cy st evs] step by simp
  with Cons step show ?case by simp
qed

text \<open>
  C4. For a contest row with a link under a tracked start date: when the start time
  string is empty or fails to parse, the row emits no event; when the start time parses
  and the end time string fails to parse, the row emits one event with the parsed start,
  the title, mode and note of the row, and no end.
\<close>

theorem contest_row_time_failures:
  assumes "\<not> is_header tds" and "tds \<noteq> []" and "cell_link (hd tds) = Some ttl"
    and "current_start_date st = Some sd"
  shows "(start_str tds = [] \<or> pt (start_str tds) = None \<longrightarrow>
            scrape_row pd pt cy (st, evs) tds = (st, evs)) \<and>
         (start_str tds \<noteq> [] \<and> pt (start_str tds) = Some t1 \<and> pt (end_str tds) = None \<longrightarrow>
            scrape_row pd pt cy (st, evs) tds =
              (st, evs @ [\<lparr>title = ttl, start_dt = combine sd t1, end_dt = None,
                            mode = row_mode tds, note_txt = row_note tds\<rparr>]))"
  using assms
  by (cases tds) (auto simp: scrape_row_def is_header_def contest_row_def)





section \<open>The parser at the fragments of the examples\<close>

lemma fragments:
  "date_part1 ''Sa 06.-So 07.01.'' = ''.''" "date_part2 ''So 07.01.'' = ''01..''"
  "date_part1 ''06.01.-07.01.'' = ''01..''" "date_part2 ''07.01.'' = ''01..''"
  "date_part1 ''Sa. 06.01.2025-So. 07.01.2025'' = '' 06.01.2025''"
  "date_part2 ''So. 07.01.2025'' = '' 07.01.2025''"
  by code_simp+

lemma splits:
  "split_once CHR ''-'' ''Sa 06.-So 07.01.'' = (''Sa 06.'', Some ''So 07.01.'')"
  "split_once CHR ''-'' ''06.01.-07.01.'' = (''06.01.'', Some ''07.01.'')"
  "split_once CHR ''-'' ''Sa. 06.01.2025-So. 07.01.2025'' = (''Sa. 06.01.2025'', Some ''So. 07.01.2025'')"
  by code_simp+

lemma no_nbsp:
  "replace_char nbsp '' '' ''Sa 06.-So 07.01.'' = ''Sa 06.-So 07.01.''"
  "replace_char nbsp '' '' ''06.01.-07.01.'' = ''06.01.-07.01.''"
  "replace_char nbsp '' '' ''Sa. 06.01.2025-So. 07.01.2025'' = ''Sa. 06.01.2025-So. 07.01.2025''"
  by code_simp+

lemma time_cells:
  "start_str (contest ttl ''15:00-18:00Z'' md) = ''15:00''"
  "end_str (contest ttl ''15:00-18:00Z'' md) = ''18:00Z''"
  "start_str (contest ttl ''24:00-18:00'' md) = ''24:00''"
  "start_str (contest ttl ''15:00-24:00'' md) = ''15:00''"
  "end_str (contest ttl ''15:00-24:00'' md) = ''24:00''"
proof -
  have "replace_char nbsp '' '' ''15:00-18:00Z'' = ''15:00-18:00Z''"
    "replace_char nbsp '' '' ''24:00-18:00'' = ''24:00-18:00''"
    "replace_char nbsp '' '' ''15:00-24:00'' = ''15:00-24:00''"
    "strip (fst (partition CHR ''-'' ''15:00-18:00Z'')) = ''15:00''"
    "strip (snd (partition CHR ''-'' ''15:00-18:00Z'')) = ''18:00Z''"
    "strip (fst (partition CHR ''-'' ''24:00-18:00'')) = ''24:00''"
    "strip (fst (partition CHR ''-'' ''15:00-24:00'')) = ''15:00''"
    "strip (snd (partition CHR ''-'' ''15:00-24:00'')) = ''24:00''"
    by code_simp+
  then show "start_str (contest ttl ''15:00-18:00Z'' md) = ''15:00''"
  "end_str (contest ttl ''15:00-18:00Z'' md) = ''18:00Z''"
  "start_str (contest ttl ''24:00-18:00'' md) = ''24:00''"
  "start_str (contest ttl ''15:00-24:00'' md) = ''15:00''"
  "end_str (contest ttl ''15:00-24:00'' md) = ''24:00''"
    by (simp_all add: start_str_def end_str_def time_txt_def contest_def mk_cell_def)
qed

lemma parse_dot: "dateutil_date today ''.'' = None"
proof -
  have "timelex S_init False [] ''.'' = [''.'']" by code_simp
  moreover have "list_all in_scope [''.'']" by code_simp
  moreover have "parse_tokens \<lparr>ymd = [], ystridx = None, century_specified = False, p_hour = None,
      p_minute = None, p_second = None, p_microsecond = None, p_tzname = False\<rparr> [''.''] =
    Some \<lparr>ymd = [], ystridx = None, century_specified = False, p_hour = None,
      p_minute = None, p_second = None, p_microsecond = None, p_tzname = False\<rparr>" by code_simp
  ultimately show ?thesis
    by (simp add: dateutil_date_def dateutil_parse_def resolve_ymd_def)
qed

lemma parse_day_only: "dateutil_date today ''01..'' = Some (mk_date 2025 3 1)"
proof -
  have "timelex S_init False [] ''01..'' = [''01'', ''.'', ''.'']" by code_simp
  moreover have "list_all in_scope [''01'', ''.'', ''.'']" by code_simp
  moreover have "parse_tokens \<lparr>ymd = [], ystridx = None, century_specified = False, p_hour = None,
      p_minute = None, p_second = None, p_microsecond = None, p_tzname = False\<rparr> [''01'', ''.'', ''.''] =
    Some \<lparr>ymd = [1], ystridx = None, century_specified = False, p_hour = None,
      p_minute = None, p_second = None, p_microsecond = None, p_tzname = False\<rparr>" by code_simp
  ultimately show ?thesis
    by (simp add: dateutil_date_def dateutil_parse_def resolve_ymd_def valid_date_def valid_time_def
          today_def mk_date_def midnight_def days_in_month_def is_leap_def)
qed

lemma parse_1500:
  "dateutil_time today ''15:00'' = Some \<lparr>hour = 15, minute = 0, second = 0, microsecond = 0\<rparr>"
proof -
  have "timelex S_init False [] ''15:00'' = [''15'', '':'', ''00'']" by code_simp
  moreover have "list_all in_scope [''15'', '':'', ''00'']" by code_simp
  moreover have "parse_tokens \<lparr>ymd = [], ystridx = None, century_specified = False, p_hour = None,
      p_minute = None, p_second = None, p_microsecond = None, p_tzname = False\<rparr> [''15'', '':'', ''00''] =
    Some \<lparr>ymd = [], ystridx = None, century_specified = False, p_hour = Some 15,
      p_minute = Some 0, p_second = None, p_microsecond = None, p_tzname = False\<rparr>" by code_simp
  ultimately show ?thesis
    by (simp add: dateutil_time_def dateutil_parse_def resolve_ymd_def valid_date_def valid_time_def
          today_def mk_date_def midnight_def days_in_month_def is_leap_def)
qed

lemma parse_1800Z:
  "dateutil_time today ''18:00Z'' = Some \<lparr>hour = 18, minute = 0, second = 0, microsecond = 0\<rparr>"
proof -
  have "timelex S_init False [] ''18:00Z'' = [''18'', '':'', ''00'', ''Z'']" by code_simp
  moreover have "list_all in_scope [''18'', '':'', ''00'', ''Z'']" by code_simp
  moreover have "parse_tokens \<lparr>ymd = [], ystridx = None, century_specified = False, p_hour = None,
      p_minute = None, p_second = None, p_microsecond = None, p_tzname = False\<rparr>
      [''18'', '':'', ''00'', ''Z''] =
    Some \<lparr>ymd = [], ystridx = None, century_specified = False, p_hour = Some 18,
      p_minute = Some 0, p_second = None, p_microsecond = None, p_tzname = True\<rparr>" by code_simp
  ultimately show ?thesis
    by (simp add: dateutil_time_def dateutil_parse_def resolve_ymd_def valid_date_def valid_time_def
          today_def mk_date_def midnight_def days_in_month_def is_leap_def)
qed

lemma parse_2400: "dateutil_time today ''24:00'' = None"
proof -
  have "timelex S_init False [] ''24:00'' = [''24'', '':'', ''00'']" by code_simp
  moreover have "list_all in_scope [''24'', '':'', ''00'']" by code_simp
  moreover have "parse_tokens \<lparr>ymd = [], ystridx = None, century_specified = False, p_hour = None,
      p_minute = None, p_second = None, p_microsecond = None, p_tzname = False\<rparr> [''24'', '':'', ''00''] =
    Some \<lparr>ymd = [], ystridx = None, century_specified = False, p_hour = Some 24,
      p_minute = Some 0, p_second = None, p_microsecond = None, p_tzname = False\<rparr>" by code_simp
  ultimately show ?thesis
    by (simp add: dateutil_time_def dateutil_parse_def resolve_ymd_def valid_date_def valid_time_def
          today_def mk_date_def midnight_def days_in_month_def is_leap_def)
qed

theorem non_header_rows_keep_tracked_dates_witness:
  "list_all (\<lambda>tds. \<not> is_header tds)
     [contest ''Test Contest'' ''15:00-18:00Z'' ''CW'', [mk_cell ''Pause''], []] \<and>
   fst (scrape_loop (dateutil_date today) (dateutil_time today) 2025
          (\<lparr>current_start_date = Some (mk_date 2025 1 6),
            current_end_date = Some (mk_date 2025 1 7)\<rparr>, [])
          [contest ''Test Contest'' ''15:00-18:00Z'' ''CW'', [mk_cell ''Pause''], []])
     = \<lparr>current_start_date = Some (mk_date 2025 1 6), current_end_date = Some (mk_date 2025 1 7)\<rparr>"
proof -
  have h: "list_all (\<lambda>tds. \<not> is_header tds)
     [contest ''Test Contest'' ''15:00-18:00Z'' ''CW'', [mk_cell ''Pause''], []]"
    by (simp add: is_header_def contest_def mk_cell_def)
  show ?thesis
    using h non_header_rows_keep_tracked_dates[OF h] by simp
qed

theorem contest_row_time_failures_witness:
  "scrape_row (dateutil_date today) (dateutil_time today) 2025
     (\<lparr>current_start_date = Some (mk_date 2025 1 6), current_end_date = Some (mk_date 2025 1 7)\<rparr>, [])
     (contest ''Test Contest'' ''24:00-18:00'' ''CW'')
   = (\<lparr>current_start_date = Some (mk_date 2025 1 6), current_end_date = Some (mk_date 2025 1 7)\<rparr>, []) \<and>
   scrape_row (dateutil_date today) (dateutil_time today) 2025
     (\<lparr>current_start_date = Some (mk_date 2025 1 6), current_end_date = Some (mk_date 2025 1 7)\<rparr>, [])
     (contest ''Test Contest'' ''15:00-24:00'' ''CW'')
   = (\<lparr>current_start_date = Some (mk_date 2025 1 6), current_end_date = Some (mk_date 2025 1 7)\<rparr>,
      [mk_event ''Test Contest'' (mk_dt 2025 1 6 15 0) None ''CW''])"
proof -
  let ?st = "\<lparr>current_start_date = Some (mk_date 2025 1 6), current_end_date = Some (mk_date 2025 1 7)\<rparr>"
  have a: "\<not> is_header (contest ''Test Contest'' tm ''CW'')" "contest ''Test Contest'' tm ''CW'' \<noteq> []"
    "cell_link (hd (contest ''Test Contest'' tm ''CW'')) = Some ''Test Contest''" for tm
    by (simp_all add: is_header_def contest_def)
  have b: "current_start_date ?st = Some (mk_date 2025 1 6)" by simp
  have md: "row_mode (contest ''Test Contest'' tm ''CW'') = ''CW''"
    "row_note (contest ''Test Contest'' tm ''CW'') = []" for tm
    by (simp_all add: row_mode_def row_note_def contest_def mk_cell_def)
  show ?thesis
    using contest_row_time_failures[where pt = "dateutil_time today" and pd = "dateutil_date today"
            and cy = 2025 and evs = "[]", OF a(1) a(2) a(3) b, of "''24:00-18:00''"]
          contest_row_time_failures[where pt = "dateutil_time today" and pd = "dateutil_date today"
            and cy = 2025 and evs = "[]"
            and ?t1.0 = "\<lparr>hour = 15, minute = 0, second = 0, microsecond = 0\<rparr>",
            OF a(1) a(2) a(3) b, of "''15:00-24:00''"]
    by (simp add: time_cells parse_1500 parse_2400 md mk_event_def mk_dt_def combine_def)
qed

section \<open>The parser model at a date written DD.MM.YYYY\<close>

lemma dig_facts:
  assumes "dig c"
  shows "is_digit c" "\<not> is_alpha c" "\<not> is_space c" "c \<noteq> CHR 0x00" "c \<noteq> CHR ''.''" "c \<noteq> CHR '',''"
    "c \<noteq> CHR ''-''" "c \<noteq> nbsp" "c \<noteq> CHR '' ''" "is_decimal c"
proof -
  from assms obtain k where k: "k < 10" "c = char_of (48 + k :: nat)" by (auto simp: dig_def)
  then have oc: "of_char c = (48 + k :: nat)" by (simp add: of_char_of)
  show "is_digit c" "\<not> is_alpha c" "\<not> is_space c" "is_decimal c"
    using k oc by (simp_all add: is_digit_def is_alpha_def is_space_def is_decimal_def)
  have "\<And>x. (of_char x :: nat) \<noteq> of_char c \<Longrightarrow> c \<noteq> x" by auto
  then show "c \<noteq> CHR 0x00" "c \<noteq> CHR ''.''" "c \<noteq> CHR '',''" "c \<noteq> CHR ''-''" "c \<noteq> nbsp" "c \<noteq> CHR '' ''"
    using k oc by (simp_all add: nbsp_def)
qed

lemma dig_digit_char: "dig (digit_char n)"
  unfolding dig_def digit_char_def by (rule exI[of _ "n mod 10"]) simp

lemma val_digit_char: "(of_char (digit_char n) :: nat) - 48 = n mod 10"
  by (simp add: digit_char_def of_char_of)

lemma sep_facts:
  "is_space CHR '' ''" "\<not> is_alpha CHR '' ''" "\<not> is_digit CHR '' ''"
  "\<not> is_space CHR ''.''" "\<not> is_alpha CHR ''.''" "\<not> is_digit CHR ''.''"
  "\<not> is_decimal CHR '' ''" "\<not> is_decimal CHR ''.''"
  by (simp_all add: is_space_def is_alpha_def is_digit_def is_decimal_def)

lemma lex_dmy:
  assumes "dig a" "dig b" "dig c" "dig d" "dig e" "dig f" "dig g" "dig h"
  shows "timelex S_init False [] ('' '' @ [a, b] @ ''.'' @ [c, d] @ ''.'' @ [e, f, g, h]) =
           ['' '', [a, b], ''.'', [c, d], ''.'', [e, f, g, h]]"
proof -
  note fa = dig_facts[OF assms(1)] dig_facts[OF assms(2)] dig_facts[OF assms(3)] dig_facts[OF assms(4)]
        dig_facts[OF assms(5)] dig_facts[OF assms(6)] dig_facts[OF assms(7)] dig_facts[OF assms(8)]
  show ?thesis
    using fa by (simp add: sep_facts finish_token_def count_char_def)
qed

lemma scope_dmy:
  assumes "dig a" "dig b" "dig c" "dig d" "dig e" "dig f" "dig g" "dig h"
  shows "list_all in_scope ['' '', [a, b], ''.'', [c, d], ''.'', [e, f, g, h]]"
  using assms by (simp add: in_scope_def all_digits_def dig_facts)

lemma parse_dmy:
  assumes "dig a" "dig b" "dig c" "dig d" "dig e" "dig f" "dig g" "dig h"
  shows "parse_tokens \<lparr>ymd = [], ystridx = None, century_specified = False, p_hour = None,
      p_minute = None, p_second = None, p_microsecond = None, p_tzname = False\<rparr>
      ['' '', [a, b], ''.'', [c, d], ''.'', [e, f, g, h]] =
    Some \<lparr>ymd = [int_of [a, b], int_of [c, d], int_of [e, f, g, h]], ystridx = Some 2,
      century_specified = True, p_hour = None,
      p_minute = None, p_second = None, p_microsecond = None, p_tzname = False\<rparr>"
proof -
  note fa = dig_facts[OF assms(1)] dig_facts[OF assms(2)] dig_facts[OF assms(3)] dig_facts[OF assms(4)]
        dig_facts[OF assms(5)] dig_facts[OF assms(6)] dig_facts[OF assms(7)] dig_facts[OF assms(8)]
  have nd: "\<not> all_digits '' ''" "\<not> all_digits ''.''"
    by (simp_all add: all_digits_def sep_facts)
  have ad: "all_digits [a, b]" "all_digits [c, d]" "all_digits [e, f, g, h]"
    using fa by (simp_all add: all_digits_def)
  have ne: "[a, b] \<noteq> ''.''" "[c, d] \<noteq> ''.''" "[e,f,g,h] \<noteq> ''.''" "[a, b] \<noteq> '' ''" "[c, d] \<noteq> '' ''" "[a,b] \<noteq> '':''"
     "[c,d] \<noteq> '':''" by simp_all
  show ?thesis
    by (simp add: nd ad jump_def append_str_def ymd_append_def del: all_digits_def)
qed


lemma int_of_pad2: "n < 100 \<Longrightarrow> int_of (pad2 n) = n"
proof -
  assume n: "n < 100"
  have "int_of (pad2 n) = 10 * (n div 10 mod 10) + n mod 10"
    by (simp add: int_of_def pad2_def val_digit_char)
  moreover have "n div 10 mod 10 = n div 10" using n by simp
  ultimately show ?thesis by simp
qed

lemma digits4_lin:
  "I = 10 * (10 * (10 * A + B) + C) + D \<Longrightarrow> A = E \<Longrightarrow> F = 10 * E + B \<Longrightarrow>
   G = 10 * F + C \<Longrightarrow> n = 10 * G + D \<Longrightarrow> I = (n::nat)"
  by simp

lemma int_of_pad4: "n < 10000 \<Longrightarrow> int_of (pad4 n) = n"
proof -
  assume n: "n < 10000"
  have "int_of (pad4 n) =
      10 * (10 * (10 * (n div 1000 mod 10) + n div 100 mod 10) + n div 10 mod 10) + n mod 10"
    by (simp add: int_of_def pad4_def val_digit_char)
  moreover have "n div 1000 mod 10 = n div 1000" using n by simp
  moreover have "n div 100 = 10 * (n div 1000) + n div 100 mod 10"
    using div_mult_mod_eq[of "n div 100" 10] by (simp add: div_mult2_eq[symmetric])
  moreover have "n div 10 = 10 * (n div 100) + n div 10 mod 10"
    using div_mult_mod_eq[of "n div 10" 10] by (simp add: div_mult2_eq[symmetric])
  moreover have "n = 10 * (n div 10) + n mod 10" by simp
  ultimately show ?thesis by (rule digits4_lin)
qed

lemma valid_date_bounds:
  "valid_date d \<Longrightarrow> 1 \<le> day d \<and> day d \<le> 31 \<and> 1 \<le> month d \<and> month d \<le> 12 \<and> 1 \<le> year d \<and> year d \<le> 9999"
  by (auto simp: valid_date_def days_in_month_def split: if_splits)

lemma dateutil_date_dmy:
  assumes "valid_date d"
  shows "dateutil_date t ('' '' @ dmy d) = Some d"
proof -
  let ?a = "digit_char (day d div 10)" and ?b = "digit_char (day d)"
  let ?c = "digit_char (month d div 10)" and ?d = "digit_char (month d)"
  let ?e = "digit_char (year d div 1000)" and ?f = "digit_char (year d div 100)"
  let ?g = "digit_char (year d div 10)" and ?h = "digit_char (year d)"
  have str: "'' '' @ dmy d = '' '' @ [?a, ?b] @ ''.'' @ [?c, ?d] @ ''.'' @ [?e, ?f, ?g, ?h]"
    by (simp add: dmy_def pad2_def pad4_def)
  note b = valid_date_bounds[OF assms]
  have vals: "int_of [?a, ?b] = day d" "int_of [?c, ?d] = month d" "int_of [?e, ?f, ?g, ?h] = year d"
    using b int_of_pad2[of "day d"] int_of_pad2[of "month d"] int_of_pad4[of "year d"]
    by (simp_all add: pad2_def pad4_def)
  have lex: "timelex S_init False [] ('' '' @ dmy d) =
      ['' '', [?a, ?b], ''.'', [?c, ?d], ''.'', [?e, ?f, ?g, ?h]]"
    unfolding str by (rule lex_dmy) (rule dig_digit_char)+
  have sc: "list_all in_scope ['' '', [?a, ?b], ''.'', [?c, ?d], ''.'', [?e, ?f, ?g, ?h]]"
    by (rule scope_dmy) (rule dig_digit_char)+
  have pt: "parse_tokens \<lparr>ymd = [], ystridx = None, century_specified = False, p_hour = None,
      p_minute = None, p_second = None, p_microsecond = None, p_tzname = False\<rparr>
      ['' '', [?a, ?b], ''.'', [?c, ?d], ''.'', [?e, ?f, ?g, ?h]] =
    Some \<lparr>ymd = [day d, month d, year d], ystridx = Some 2,
      century_specified = True, p_hour = None,
      p_minute = None, p_second = None, p_microsecond = None, p_tzname = False\<rparr>"
    using parse_dmy[of ?a ?b ?c ?d ?e ?f ?g ?h] by (simp only: vals dig_digit_char simp_thms)
  have res: "resolve_ymd True \<lparr>ymd = [day d, month d, year d], ystridx = Some 2,
      century_specified = True, p_hour = None,
      p_minute = None, p_second = None, p_microsecond = None, p_tzname = False\<rparr> =
      Some (Some (year d), Some (month d), Some (day d))"
    using b by (simp add: resolve_ymd_def)
  have d_eq: "\<lparr>year = year d, month = month d, day = day d\<rparr> = d" by simp
  have "dateutil_parse (midnight t) True ('' '' @ dmy d) =
      Some \<lparr>dt_date = d, dt_time = \<lparr>hour = 0, minute = 0, second = 0, microsecond = 0\<rparr>\<rparr>"
    unfolding dateutil_parse_def Let_def lex pt
    using assms sc
    by (simp add: res convertyear_def midnight_def valid_time_def d_eq
          del: timelex.simps parse_tokens.simps)
  then show ?thesis
    by (simp only: dateutil_date_def option.map datetime.simps)
qed


section \<open>The fragments of a header with dotted prefixes\<close>

lemma dropWhile_append_stop: "\<not> P y \<Longrightarrow> dropWhile P (xs @ y # ys) = dropWhile P xs @ y # ys"
  by (induction xs) auto

lemma split_once_at: "c \<notin> set p \<Longrightarrow> split_once c (p @ c # r) = (p, Some r)"
  by (induction p) (auto simp: split_once_def)

lemma split_once_none: "c \<notin> set s \<Longrightarrow> split_once c s = (s, None)"
  by (induction s) (auto simp: split_once_def)

lemma replace_char_append: "replace_char c r (xs @ ys) = replace_char c r xs @ replace_char c r ys"
  by (simp add: replace_char_def)

lemma replace_char_id: "c \<notin> set xs \<Longrightarrow> replace_char c r xs = xs"
  by (induction xs) (auto simp: replace_char_def)

lemma replace_char_keeps_out:
  "x \<notin> set xs \<Longrightarrow> x \<notin> set r \<Longrightarrow> x \<notin> set (replace_char c r xs)"
  by (induction xs) (auto simp: replace_char_def)

lemma dmy_chars:
  obtains a b c d e f g h where "dmy dt = [a, b, CHR ''.'', c, d, CHR ''.'', e, f, g, h]"
    "dig a" "dig b" "dig c" "dig d" "dig e" "dig f" "dig g" "dig h"
  by (rule that[of "digit_char (day dt div 10)" "digit_char (day dt)"
        "digit_char (month dt div 10)" "digit_char (month dt)"
        "digit_char (year dt div 1000)" "digit_char (year dt div 100)"
        "digit_char (year dt div 10)" "digit_char (year dt)"])
     (simp_all add: dmy_def pad2_def pad4_def dig_digit_char)

lemma dmy_set: "CHR ''-'' \<notin> set (dmy dt)" "nbsp \<notin> set (dmy dt)"
proof -
  obtain a b c d e f g h where *: "dmy dt = [a, b, CHR ''.'', c, d, CHR ''.'', e, f, g, h]"
    "dig a" "dig b" "dig c" "dig d" "dig e" "dig f" "dig g" "dig h"
    by (rule dmy_chars)
  note fa = dig_facts[OF *(2)] dig_facts[OF *(3)] dig_facts[OF *(4)] dig_facts[OF *(5)]
        dig_facts[OF *(6)] dig_facts[OF *(7)] dig_facts[OF *(8)] dig_facts[OF *(9)]
  show "CHR ''-'' \<notin> set (dmy dt)" "nbsp \<notin> set (dmy dt)"
    using fa by (auto simp: * nbsp_def)
qed

lemma segment_fragment:
  assumes "CHR ''.'' \<notin> set P"
  shows "strip (P @ ''. '' @ dmy dt) = lstrip P @ ''. '' @ dmy dt"
    and "split_once CHR ''.'' (lstrip P @ ''. '' @ dmy dt) = (lstrip P, Some ('' '' @ dmy dt))"
    and "count_char CHR ''.'' ('' '' @ dmy dt) = 2"
proof -
  obtain a b c d e f g h where *: "dmy dt = [a, b, CHR ''.'', c, d, CHR ''.'', e, f, g, h]"
    "dig a" "dig b" "dig c" "dig d" "dig e" "dig f" "dig g" "dig h"
    by (rule dmy_chars)
  note fa = dig_facts[OF *(2)] dig_facts[OF *(3)] dig_facts[OF *(4)] dig_facts[OF *(5)]
        dig_facts[OF *(6)] dig_facts[OF *(7)] dig_facts[OF *(8)] dig_facts[OF *(9)]
  have l: "lstrip (P @ ''. '' @ dmy dt) = lstrip P @ ''. '' @ dmy dt"
    using dropWhile_append_stop[of is_space "CHR ''.''" P "'' '' @ dmy dt"]
    by (simp add: lstrip_def sep_facts)
  have r: "rstrip (X @ dmy dt) = X @ dmy dt" for X
    using fa by (simp add: rstrip_def *)
  show "strip (P @ ''. '' @ dmy dt) = lstrip P @ ''. '' @ dmy dt"
    using l r[of "lstrip P @ ''. ''"] by (simp add: strip_def)
  have "CHR ''.'' \<notin> set (lstrip P)"
    using assms by (auto simp: lstrip_def dest: set_dropWhileD)
  then show "split_once CHR ''.'' (lstrip P @ ''. '' @ dmy dt) = (lstrip P, Some ('' '' @ dmy dt))"
    using split_once_at[of "CHR ''.''" "lstrip P" "'' '' @ dmy dt"] by simp
  show "count_char CHR ''.'' ('' '' @ dmy dt) = 2"
    using fa by (simp add: count_char_def *)
qed

lemma date_part2_segment:
  assumes "CHR ''.'' \<notin> set Q"
  shows "date_part2 (Q @ ''. '' @ dmy dt) = '' '' @ dmy dt"
  using segment_fragment[OF assms, of dt]
  by (simp add: date_part2_def Let_def)

lemma date_part1_single:
  assumes "CHR ''.'' \<notin> set P" "CHR ''-'' \<notin> set P"
  shows "date_part1 (P @ ''. '' @ dmy dt) = '' '' @ dmy dt"
proof -
  have "CHR ''-'' \<notin> set (P @ ''. '' @ dmy dt)" using assms(2) dmy_set(1)[of dt] by simp
  then have "split_once CHR ''-'' (P @ ''. '' @ dmy dt) = (P @ ''. '' @ dmy dt, None)"
    by (rule split_once_none)
  then show ?thesis
    using segment_fragment[OF assms(1), of dt] by (simp add: date_part1_def Let_def)
qed

lemma split_range:
  assumes "CHR ''-'' \<notin> set P"
  shows "split_once CHR ''-'' (P @ ''. '' @ dmy dt @ ''-'' @ R) = (P @ ''. '' @ dmy dt, Some R)"
proof -
  have "CHR ''-'' \<notin> set (P @ ''. '' @ dmy dt)" using assms dmy_set(1)[of dt] by simp
  then show ?thesis
    using split_once_at[of "CHR ''-''" "P @ ''. '' @ dmy dt" R] by simp
qed

lemma date_part1_range:
  assumes "CHR ''.'' \<notin> set P" "CHR ''-'' \<notin> set P"
  shows "date_part1 (P @ ''. '' @ dmy dt @ ''-'' @ R) = '' '' @ dmy dt"
  using segment_fragment[OF assms(1), of dt] split_range[OF assms(2), of dt R]
  by (simp add: date_part1_def Let_def)


text \<open>
  C1, amended. For every header row whose emphasized text is a single segment
  \<open>p. DD.MM.YYYY\<close> or a range \<open>p. DD.MM.YYYY-q. DD.MM.YYYY\<close>, where the
  prefixes \<open>p\<close> and \<open>q\<close> hold no \<open>.\<close>, \<open>p\<close> holds no \<open>-\<close>, and each
  date exists both in the year written (\<open>valid_date d\<close>) and in the current year
  (\<open>valid_date (d\<lparr>year := cy\<rparr>)\<close>), the tracked start and end dates after the row
  are those days with the year forced to the current year, whatever year the text shows.
  The parser is the model of python-dateutil on any day \<open>t\<close>.
\<close>

theorem header_dates_year_forced:
  assumes "valid_date d1" and "valid_date d2"
    and "valid_date (d1\<lparr>year := cy\<rparr>)" and "valid_date (d2\<lparr>year := cy\<rparr>)"
    and "CHR ''.'' \<notin> set p" and "CHR ''-'' \<notin> set p" and "CHR ''.'' \<notin> set q"
  shows "header_row (dateutil_date t) cy (p @ ''. '' @ dmy d1) =
           \<lparr>current_start_date = Some (d1\<lparr>year := cy\<rparr>),
            current_end_date = Some (d1\<lparr>year := cy\<rparr>)\<rparr> \<and>
         header_row (dateutil_date t) cy (p @ ''. '' @ dmy d1 @ ''-'' @ q @ ''. '' @ dmy d2) =
           \<lparr>current_start_date = Some (d1\<lparr>year := cy\<rparr>),
            current_end_date = Some (d2\<lparr>year := cy\<rparr>)\<rparr>"
proof -
  let ?P = "replace_char nbsp '' '' p" and ?Q = "replace_char nbsp '' '' q"
  have P: "CHR ''.'' \<notin> set ?P" "CHR ''-'' \<notin> set ?P" and Q: "CHR ''.'' \<notin> set ?Q"
    using assms(5-7) by (simp_all add: replace_char_keeps_out)
  have keep: "replace_char nbsp '' '' (dmy d) = dmy d" for d
    by (rule replace_char_id) (rule dmy_set)
  have lit: "replace_char nbsp '' '' ''. '' = ''. ''" "replace_char nbsp '' '' ''-'' = ''-''"
    by (simp_all add: replace_char_def nbsp_def)
  have t1: "replace_char nbsp '' '' (p @ ''. '' @ dmy d1) = ?P @ ''. '' @ dmy d1"
    by (simp only: replace_char_append keep lit)
  have t2: "replace_char nbsp '' '' (p @ ''. '' @ dmy d1 @ ''-'' @ q @ ''. '' @ dmy d2) =
      ?P @ ''. '' @ dmy d1 @ ''-'' @ (?Q @ ''. '' @ dmy d2)"
    by (simp only: replace_char_append keep lit append_assoc)
  have y1: "parse_header_date (dateutil_date t) cy ('' '' @ dmy d1) = Some (d1\<lparr>year := cy\<rparr>)"
    using assms(3) by (simp only: parse_header_date_def dateutil_date_dmy[OF assms(1)])
      (simp add: replace_year_def)
  have y2: "parse_header_date (dateutil_date t) cy ('' '' @ dmy d2) = Some (d2\<lparr>year := cy\<rparr>)"
    using assms(4) by (simp only: parse_header_date_def dateutil_date_dmy[OF assms(2)])
      (simp add: replace_year_def)
  have single: "header_row (dateutil_date t) cy (p @ ''. '' @ dmy d1) =
           \<lparr>current_start_date = Some (d1\<lparr>year := cy\<rparr>),
            current_end_date = Some (d1\<lparr>year := cy\<rparr>)\<rparr>"
  proof -
    have "CHR ''-'' \<notin> set (?P @ ''. '' @ dmy d1)" using P(2) dmy_set(1)[of d1] by simp
    then have sp: "split_once CHR ''-'' (?P @ ''. '' @ dmy d1) = (?P @ ''. '' @ dmy d1, None)"
      by (rule split_once_none)
    show ?thesis
      unfolding header_row_def Let_def t1 sp date_part1_single[OF P] y1 by simp
  qed
  have range: "header_row (dateutil_date t) cy (p @ ''. '' @ dmy d1 @ ''-'' @ q @ ''. '' @ dmy d2) =
           \<lparr>current_start_date = Some (d1\<lparr>year := cy\<rparr>),
            current_end_date = Some (d2\<lparr>year := cy\<rparr>)\<rparr>"
    unfolding header_row_def Let_def t2 split_range[OF P(2)] date_part1_range[OF P]
      snd_conv option.case date_part2_segment[OF Q] y1 y2
    by simp
  from single range show ?thesis by simp
qed

theorem header_dates_year_forced_witness:
  "valid_date (mk_date 2024 1 6) \<and> valid_date (mk_date 2024 1 7) \<and>
   header_row (dateutil_date today) 2025 ''Sa. 06.01.2024'' =
     \<lparr>current_start_date = Some (mk_date 2025 1 6), current_end_date = Some (mk_date 2025 1 6)\<rparr> \<and>
   header_row (dateutil_date today) 2025 ''Sa. 06.01.2024-So. 07.01.2024'' =
     \<lparr>current_start_date = Some (mk_date 2025 1 6), current_end_date = Some (mk_date 2025 1 7)\<rparr>"
proof -
  have v: "valid_date (mk_date 2024 1 6)" "valid_date (mk_date 2024 1 7)"
    "valid_date ((mk_date 2024 1 6)\<lparr>year := 2025\<rparr>)" "valid_date ((mk_date 2024 1 7)\<lparr>year := 2025\<rparr>)"
    by (simp_all add: valid_date_def mk_date_def days_in_month_def)
  have c: "CHR ''.'' \<notin> set ''Sa''" "CHR ''-'' \<notin> set ''Sa''" "CHR ''.'' \<notin> set ''So''"
    by simp_all
  have s: "dmy (mk_date 2024 1 6) = ''06.01.2024''" "dmy (mk_date 2024 1 7) = ''07.01.2024''"
    by code_simp+
  have r: "(mk_date 2024 1 6)\<lparr>year := 2025\<rparr> = mk_date 2025 1 6"
    "(mk_date 2024 1 7)\<lparr>year := 2025\<rparr> = mk_date 2025 1 7"
    by (simp_all add: mk_date_def)
  show ?thesis
    using v(1,2) header_dates_year_forced[OF v c, of today]
    by (simp only: s r append_Cons append_Nil simp_thms)
qed


section \<open>The headers of the examples\<close>

lemma header_row_eval:
  assumes "replace_char nbsp '' '' s = txt" and "split_once CHR ''-'' txt = (a, b)"
  shows "header_row pd cy s =
     \<lparr>current_start_date = parse_header_date pd cy (date_part1 txt),
      current_end_date =
        (case b of
           Some p1 \<Rightarrow>
             (case parse_header_date pd cy (date_part2 p1) of
                Some d2 \<Rightarrow> Some d2
              | None \<Rightarrow> parse_header_date pd cy (date_part1 txt))
         | None \<Rightarrow> parse_header_date pd cy (date_part1 txt))\<rparr>"
  using assms by (simp add: header_row_def Let_def)

lemma header_ignores_leading_day:
  "header_row pd cy ''06.01.-07.01.'' = header_row pd cy ''05.01.-07.01.''"
proof -
  have "replace_char nbsp '' '' ''05.01.-07.01.'' = ''05.01.-07.01.''"
    "split_once CHR ''-'' ''05.01.-07.01.'' = (''05.01.'', Some ''07.01.'')"
    "date_part1 ''05.01.-07.01.'' = ''01..''"
    by code_simp+
  then show ?thesis
    by (simp only: header_row_eval[OF no_nbsp(2) splits(2)] header_row_eval fragments)
qed

lemma parse_day_dot: "dateutil_date today ''01.'' = Some (mk_date 2025 3 1)"
proof -
  have "timelex S_init False [] ''01.'' = [''01'', ''.'']" by code_simp
  moreover have "list_all in_scope [''01'', ''.'']" by code_simp
  moreover have "parse_tokens \<lparr>ymd = [], ystridx = None, century_specified = False, p_hour = None,
      p_minute = None, p_second = None, p_microsecond = None, p_tzname = False\<rparr> [''01'', ''.''] =
    Some \<lparr>ymd = [1], ystridx = None, century_specified = False, p_hour = None,
      p_minute = None, p_second = None, p_microsecond = None, p_tzname = False\<rparr>" by code_simp
  ultimately show ?thesis
    by (simp add: dateutil_date_def dateutil_parse_def resolve_ymd_def valid_date_def valid_time_def
          today_def mk_date_def midnight_def days_in_month_def is_leap_def)
qed

lemma forced_2025:
  "replace_year (mk_date 2025 3 1) 2025 = Some (mk_date 2025 3 1)"
  "replace_year (mk_date 2025 1 6) 2025 = Some (mk_date 2025 1 6)"
  "replace_year (mk_date 2025 1 7) 2025 = Some (mk_date 2025 1 7)"
  by (simp_all add: replace_year_def valid_date_def mk_date_def days_in_month_def)

lemma header_plain_range:
  "header_row (dateutil_date today) 2025 ''06.01.-07.01.'' =
     \<lparr>current_start_date = Some (mk_date 2025 3 1), current_end_date = Some (mk_date 2025 3 1)\<rparr>"
  by (simp only: header_row_eval[OF no_nbsp(2) splits(2)] fragments parse_header_date_def
        parse_day_only forced_2025 option.case)

lemma header_plain_single:
  "header_row (dateutil_date today) 2025 ''06.01.'' =
     \<lparr>current_start_date = Some (mk_date 2025 3 1), current_end_date = Some (mk_date 2025 3 1)\<rparr>"
proof -
  have a: "replace_char nbsp '' '' ''06.01.'' = ''06.01.''"
    "split_once CHR ''-'' ''06.01.'' = (''06.01.'', None)"
    "date_part1 ''06.01.'' = ''01.''"
    by code_simp+
  show ?thesis
    by (simp only: header_row_eval[OF a(1) a(2)] a(3) parse_header_date_def parse_day_dot
          forced_2025 option.case)
qed

theorem plain_day_month_header_counterexample:
  "header_row (dateutil_date today) 2025 ''06.01.-07.01.'' \<noteq>
     \<lparr>current_start_date = Some (mk_date 2025 1 6), current_end_date = Some (mk_date 2025 1 7)\<rparr> \<and>
   header_row (dateutil_date today) 2025 ''06.01.'' \<noteq>
     \<lparr>current_start_date = Some (mk_date 2025 1 6), current_end_date = Some (mk_date 2025 1 6)\<rparr>"
  by (simp add: header_plain_range header_plain_single mk_date_def)

lemma header_example:
  "header_row (dateutil_date today) 2025 ''Sa 06.-So 07.01.'' =
     \<lparr>current_start_date = None, current_end_date = Some (mk_date 2025 3 1)\<rparr>"
  by (simp only: header_row_eval[OF no_nbsp(1) splits(1)] fragments parse_header_date_def
        parse_dot parse_day_only forced_2025 option.case)

theorem end_to_end_example_counterexample:
  "header_row (dateutil_date today) 2025 ''Sa 06.-So 07.01.'' \<noteq>
     \<lparr>current_start_date = Some (mk_date 2025 1 6), current_end_date = Some (mk_date 2025 1 7)\<rparr> \<and>
   scrape_all_contests (dateutil_date today) (dateutil_time today) 2025
     [header ''Sa 06.-So 07.01.'', contest ''Test Contest'' ''15:00-18:00Z'' ''CW''] = []"
  by (simp add: scrape_all_contests_def scrape_row_def header_def contest_def header_example)

lemma parse_dmy_2025:
  "dateutil_date today '' 06.01.2025'' = Some (mk_date 2025 1 6)"
  "dateutil_date today '' 07.01.2025'' = Some (mk_date 2025 1 7)"
proof -
  have v: "valid_date (mk_date 2025 1 6)" "valid_date (mk_date 2025 1 7)"
    by (simp_all add: valid_date_def mk_date_def days_in_month_def)
  have s: "dmy (mk_date 2025 1 6) = ''06.01.2025''" "dmy (mk_date 2025 1 7) = ''07.01.2025''"
    by code_simp+
  show "dateutil_date today '' 06.01.2025'' = Some (mk_date 2025 1 6)"
    using dateutil_date_dmy[OF v(1), of today] by (simp only: s append_Cons append_Nil)
  show "dateutil_date today '' 07.01.2025'' = Some (mk_date 2025 1 7)"
    using dateutil_date_dmy[OF v(2), of today] by (simp only: s append_Cons append_Nil)
qed

lemma header_dotted:
  "header_row (dateutil_date today) 2025 ''Sa. 06.01.2025-So. 07.01.2025'' =
     \<lparr>current_start_date = Some (mk_date 2025 1 6), current_end_date = Some (mk_date 2025 1 7)\<rparr>"
  by (simp only: header_row_eval[OF no_nbsp(3) splits(3)] fragments parse_header_date_def
        parse_dmy_2025 forced_2025 option.case)

text \<open>
  C2, amended. With the current year 2025, the header row text
  \<open>Sa. 06.01.2025-So. 07.01.2025\<close> sets the tracked dates to 2025-01-06 and
  2025-01-07, and a following contest row with link text \<open>Test Contest\<close>, time cell
  \<open>15:00-18:00Z\<close> and mode cell \<open>CW\<close> produces exactly one event, with that title,
  start 2025-01-06T15:00, end 2025-01-07T18:00 and mode \<open>CW\<close>.
\<close>

theorem end_to_end_dotted_example:
  "header_row (dateutil_date today) 2025 ''Sa. 06.01.2025-So. 07.01.2025'' =
     \<lparr>current_start_date = Some (mk_date 2025 1 6), current_end_date = Some (mk_date 2025 1 7)\<rparr> \<and>
   scrape_all_contests (dateutil_date today) (dateutil_time today) 2025
     [header ''Sa. 06.01.2025-So. 07.01.2025'', contest ''Test Contest'' ''15:00-18:00Z'' ''CW'']
   = [mk_event ''Test Contest'' (mk_dt 2025 1 6 15 0) (Some (mk_dt 2025 1 7 18 0)) ''CW'']"
proof -
  have c: "contest_row (dateutil_time today)
       \<lparr>current_start_date = Some (mk_date 2025 1 6), current_end_date = Some (mk_date 2025 1 7)\<rparr>
       (mk_date 2025 1 6) ''Test Contest'' (contest ''Test Contest'' ''15:00-18:00Z'' ''CW'') =
     Some (mk_event ''Test Contest'' (mk_dt 2025 1 6 15 0) (Some (mk_dt 2025 1 7 18 0)) ''CW'')"
    by (simp add: contest_row_def time_cells parse_1500 parse_1800Z combine_def mk_event_def
          mk_dt_def row_mode_def row_note_def)
       (simp add: contest_def mk_cell_def)
  have "scrape_all_contests (dateutil_date today) (dateutil_time today) 2025
     [header ''Sa. 06.01.2025-So. 07.01.2025'', contest ''Test Contest'' ''15:00-18:00Z'' ''CW'']
   = [mk_event ''Test Contest'' (mk_dt 2025 1 6 15 0) (Some (mk_dt 2025 1 7 18 0)) ''CW'']"
    using c
    by (simp add: scrape_all_contests_def scrape_row_def header_def header_dotted)
       (simp add: contest_def)
  with header_dotted show ?thesis by simp
qed


section \<open>Header fragments that fail to parse\<close>








end
